theory Spec2Isabelle
  imports Main "HOL-Library.Log_Nat" "HOL-Library.Word"
begin

section \<open>Python values and exceptions\<close>

text \<open>
  The exceptions that the modelled code can raise. \<open>ValueError\<close> carries the message of the
  raise site, so that the repository's own "Could not open video file" is told apart from
  the interpreter's failures on \<open>int(...)\<close>.
\<close>

datatype exn = AttributeError | ValueError string | OverflowError | CvError

text \<open>
  A scalar read from the insights document (the result of \<open>json.load\<close>): \<open>JNull\<close> is
  Python's \<open>None\<close>. A field of a dictionary is a \<open>jvalue option\<close>, \<open>None\<close> meaning that the
  key is absent; \<open>get\<close> is \<open>dict.get(key, default)\<close>. Strings are lists of 8-bit
  characters read as the code points 0 to 255; code points above 255 are outside the model.
\<close>

datatype jvalue = JNull | JBool bool | JNum rat | JText string

definition get :: "jvalue option \<Rightarrow> jvalue \<Rightarrow> jvalue" where
  "get field dflt = (case field of None \<Rightarrow> dflt | Some v \<Rightarrow> v)"

section \<open>Binary64 floating point\<close>

text \<open>
  Python's \<open>float\<close> is IEEE-754 binary64. A finite float is modelled by the rational it
  denotes, and every operation rounds its exact result to the nearest representable value,
  ties to even (\<open>rnd\<close>): the quantum of a value \<open>x\<close> is \<open>2 ^ (max (ilog2 x) (-1022) - 52)\<close>,
  which covers the subnormal range too. A rounded magnitude of \<open>2 ^ 1024\<close> or more is an
  overflow. The sign of zero is not modelled: no operation below looks at it.
\<close>

definition pow2 :: "int \<Rightarrow> rat" where
  "pow2 e = (if 0 \<le> e then 2 ^ nat e else 1 / 2 ^ nat (- e))"

definition ilog2 :: "rat \<Rightarrow> int" where
  "ilog2 x = (case quotient_of \<bar>x\<bar> of (p, q) \<Rightarrow>
      let e = bitlen p - bitlen q in if pow2 e \<le> \<bar>x\<bar> then e else e - 1)"

definition round_half_even :: "rat \<Rightarrow> int" where
  "round_half_even y = (let f = \<lfloor>y\<rfloor>; d = y - of_int f in
      if d < 1 / 2 then f else if 1 / 2 < d then f + 1 else if even f then f else f + 1)"

definition rnd :: "rat \<Rightarrow> rat" where
  "rnd x = (if x = 0 then 0 else
     let q = pow2 (max (ilog2 x) (- 1022) - 52) in of_int (round_half_even (x / q)) * q)"

definition dbl_bound :: rat where
  "dbl_bound = 2 ^ 1024"

definition overflows :: "rat \<Rightarrow> bool" where
  "overflows r \<longleftrightarrow> dbl_bound \<le> \<bar>r\<bar>"

text \<open>
  A float that can be a time stamp: finite or infinite (no operation of \<open>parse_time\<close>
  yields a NaN). The order is the one of Python's comparisons.
\<close>

datatype pyfloat = NInf | Finite rat | PInf

instantiation pyfloat :: linorder
begin

fun less_eq_pyfloat :: "pyfloat \<Rightarrow> pyfloat \<Rightarrow> bool" where
  "less_eq_pyfloat NInf y = True"
| "less_eq_pyfloat (Finite a) NInf = False"
| "less_eq_pyfloat (Finite a) (Finite b) = (a \<le> b)"
| "less_eq_pyfloat (Finite a) PInf = True"
| "less_eq_pyfloat PInf NInf = False"
| "less_eq_pyfloat PInf (Finite b) = False"
| "less_eq_pyfloat PInf PInf = True"

definition less_pyfloat :: "pyfloat \<Rightarrow> pyfloat \<Rightarrow> bool" where
  "less_pyfloat x y \<longleftrightarrow> x \<le> y \<and> \<not> y \<le> x"

instance
proof
  fix x y z :: pyfloat
  show "(x < y) = (x \<le> y \<and> \<not> y \<le> x)"
    by (simp add: less_pyfloat_def)
  show "x \<le> x"
    by (cases x) simp_all
  show "x \<le> y \<Longrightarrow> y \<le> z \<Longrightarrow> x \<le> z"
    by (cases x; cases y; cases z) simp_all
  show "x \<le> y \<Longrightarrow> y \<le> x \<Longrightarrow> x = y"
    by (cases x; cases y) simp_all
  show "x \<le> y \<or> y \<le> x"
    by (cases x; cases y) auto
qed

end

definition to_float :: "rat \<Rightarrow> pyfloat" where
  \<comment> \<open>the float of an already rounded value: overflow gives an infinity\<close>
  "to_float r = (if overflows r then (if 0 < r then PInf else NInf) else Finite r)"

definition float_add :: "rat \<Rightarrow> rat \<Rightarrow> pyfloat" where
  "float_add a b = to_float (rnd (a + b))"

definition float_mul :: "pyfloat \<Rightarrow> pyfloat \<Rightarrow> pyfloat option" where
  \<comment> \<open>\<open>None\<close> is NaN (infinity times zero)\<close>
  "float_mul x y = (case (x, y) of
       (Finite a, Finite b) \<Rightarrow> Some (to_float (rnd (a * b)))
     | (Finite a, i) \<Rightarrow> (if a = 0 then None else if 0 < a then Some i
                          else Some (if i = PInf then NInf else PInf))
     | (i, Finite b) \<Rightarrow> (if b = 0 then None else if 0 < b then Some i
                          else Some (if i = PInf then NInf else PInf))
     | (i, j) \<Rightarrow> Some (if i = j then PInf else NInf))"

definition trunc :: "rat \<Rightarrow> int" where
  \<comment> \<open>\<open>int(x)\<close> of a finite float, and the quotient of C's \<open>fmod\<close>: rounding towards zero\<close>
  "trunc q = (if 0 \<le> q then \<lfloor>q\<rfloor> else \<lceil>q\<rceil>)"

definition fmod :: "rat \<Rightarrow> rat \<Rightarrow> rat" where
  \<comment> \<open>C's \<open>fmod\<close>, which is exact; the result has the sign of \<open>x\<close>\<close>
  "fmod x y = x - y * of_int (trunc (x / y))"

text \<open>
  \<open>float.__mod__\<close> and \<open>float.__floordiv__\<close> of CPython (\<open>float_rem\<close> and
  \<open>_float_div_mod\<close> in \<open>Objects/floatobject.c\<close>), for finite operands and a divisor of
  magnitude at least 1, as the literals 3600, 60 and 1000 are: no intermediate result
  overflows there.
\<close>

definition float_rem :: "rat \<Rightarrow> rat \<Rightarrow> rat" where
  "float_rem vx wx = (let m = fmod vx wx in
     if m \<noteq> 0 \<and> ((wx < 0) \<noteq> (m < 0)) then rnd (m + wx) else m)"

definition float_floor_div :: "rat \<Rightarrow> rat \<Rightarrow> rat" where
  "float_floor_div vx wx = (let m = fmod vx wx;
       d0 = rnd (rnd (vx - m) / wx);
       d = (if m \<noteq> 0 \<and> ((wx < 0) \<noteq> (m < 0)) then rnd (d0 - 1) else d0)
     in if d \<noteq> 0
        then (let f = of_int \<lfloor>d\<rfloor> in if 1 / 2 < rnd (d - f) then rnd (f + 1) else f)
        else 0)"

text \<open>
  \<open>a / b\<close> on Python integers is the correctly rounded quotient and raises
  \<open>OverflowError\<close> when that is too large for a float; \<open>i + f\<close> first converts the
  integer (correctly rounded, \<open>OverflowError\<close> when too large) and then adds as floats,
  which can overflow to an infinity without raising.
\<close>

definition int_truediv :: "int \<Rightarrow> int \<Rightarrow> exn + rat" where
  "int_truediv a b = (let r = rnd (of_int a / of_int b) in
     if overflows r then Inl OverflowError else Inr r)"

definition int_to_float :: "int \<Rightarrow> exn + rat" where
  "int_to_float i = (let r = rnd (of_int i) in
     if overflows r then Inl OverflowError else Inr r)"

definition int_add_float :: "int \<Rightarrow> rat \<Rightarrow> exn + pyfloat" where
  "int_add_float i f = (case int_to_float i of Inl e \<Rightarrow> Inl e | Inr a \<Rightarrow> Inr (float_add a f))"

section \<open>Strings and integers\<close>

text \<open>\<open>str.split(sep)\<close> with a one-character separator: one more part than separators.\<close>

fun py_split :: "char \<Rightarrow> string \<Rightarrow> string list" where
  "py_split sep [] = [[]]"
| "py_split sep (c # cs) =
     (if c = sep then [] # py_split sep cs
      else (case py_split sep cs of [] \<Rightarrow> [[c]] | p # ps \<Rightarrow> (c # p) # ps))"

text \<open>
  \<open>int(s)\<close> on a string, base 10: white space is stripped at both ends, one sign is
  allowed, then decimal digits, single underscores allowed between digits. Among the code
  points below 256 the white space is the six ASCII characters of C's \<open>isspace\<close> plus
  U+0085 and U+00A0, and the only decimal digits are \<open>0\<close> to \<open>9\<close>. The limit on
  the number of digits that newer interpreters put on the conversion is not modelled.
\<close>

definition is_space :: "char \<Rightarrow> bool" where
  "is_space c \<longleftrightarrow> of_char c \<in> {9, 10, 11, 12, 13, 32, 133, 160 :: nat}"

definition is_digit :: "char \<Rightarrow> bool" where
  "is_digit c \<longleftrightarrow> 48 \<le> (of_char c :: nat) \<and> (of_char c :: nat) \<le> 57"

definition digit_val :: "char \<Rightarrow> int" where
  "digit_val c = int (of_char c) - 48"

definition strip :: "string \<Rightarrow> string" where
  "strip s = rev (dropWhile is_space (rev (dropWhile is_space s)))"

fun py_digits :: "int \<Rightarrow> string \<Rightarrow> int option" where
  "py_digits acc [] = Some acc"
| "py_digits acc (c # cs) =
     (if is_digit c then py_digits (10 * acc + digit_val c) cs
      else if c = CHR ''_'' then
        (case cs of [] \<Rightarrow> None
         | d # ds \<Rightarrow> if is_digit d then py_digits (10 * acc + digit_val d) ds else None)
      else None)"

definition py_unsigned :: "string \<Rightarrow> int option" where
  "py_unsigned s = (case s of [] \<Rightarrow> None
     | c # cs \<Rightarrow> if is_digit c then py_digits (digit_val c) cs else None)"

definition py_int :: "string \<Rightarrow> exn + int" where
  "py_int s = (case
       (case strip s of [] \<Rightarrow> None
        | c # cs \<Rightarrow> if c = CHR ''-'' then map_option uminus (py_unsigned cs)
                   else if c = CHR ''+'' then py_unsigned cs
                   else py_unsigned (c # cs))
     of None \<Rightarrow> Inl (ValueError ''invalid literal for int() with base 10'')
      | Some i \<Rightarrow> Inr i)"

text \<open>The decimal digits of a natural number, and Python's format specification \<open>0wd\<close>.\<close>

fun dec :: "nat \<Rightarrow> string" where
  "dec n = (if n < 10 then [char_of (48 + n)] else dec (n div 10) @ [char_of (48 + n mod 10)])"

declare dec.simps [simp del]

definition fmt_0d :: "nat \<Rightarrow> int \<Rightarrow> string" where
  "fmt_0d w n = (let ds = dec (nat \<bar>n\<bar>) in
     if n < 0 then CHR ''-'' # replicate (w - 1 - length ds) CHR ''0'' @ ds
     else replicate (w - length ds) CHR ''0'' @ ds)"

section \<open>Time codes (annotation_interface.py)\<close>

text \<open>
  \<open>parse_time\<close>: the body of the \<open>try\<close> is \<open>parse_time_try\<close>, with every exception
  as a value; the bare \<open>except\<close> turns each of them into \<open>0\<close>. A value that is not a string
  has no \<open>split\<close> and raises \<open>AttributeError\<close>.
\<close>

definition unpack3 :: "string list \<Rightarrow> exn + string \<times> string \<times> string" where
  "unpack3 xs = (case xs of [h, m, s] \<Rightarrow> Inr (h, m, s) | _ \<Rightarrow> Inl (ValueError ''unpack''))"

definition unpack2 :: "string list \<Rightarrow> exn + string \<times> string" where
  "unpack2 xs = (case xs of [s, ms] \<Rightarrow> Inr (s, ms) | _ \<Rightarrow> Inl (ValueError ''unpack''))"

definition bind :: "exn + 'a \<Rightarrow> ('a \<Rightarrow> exn + 'b) \<Rightarrow> exn + 'b" where
  "bind r f = (case r of Inl e \<Rightarrow> Inl e | Inr v \<Rightarrow> f v)"

definition parse_time_try :: "jvalue \<Rightarrow> exn + pyfloat" where
  "parse_time_try time_str = (case time_str of
      JText str \<Rightarrow>
        bind (unpack3 (py_split CHR '':'' str)) (\<lambda>(h, m, s0).
        bind (unpack2 (py_split CHR ''.'' s0)) (\<lambda>(s, ms).
        bind (py_int h) (\<lambda>hi.
        bind (py_int m) (\<lambda>mi.
        bind (py_int s) (\<lambda>si.
        bind (py_int ms) (\<lambda>msi.
        bind (int_truediv msi 1000) (\<lambda>frac.
          int_add_float (hi * 3600 + mi * 60 + si) frac)))))))
    | _ \<Rightarrow> Inl AttributeError)"

definition parse_time :: "jvalue \<Rightarrow> pyfloat" where
  "parse_time time_str = (case parse_time_try time_str of Inl e \<Rightarrow> Finite 0 | Inr v \<Rightarrow> v)"

text \<open>
  The formatting of a time stamp inside \<open>extract_keyframes\<close> (lines 108 to 113). On an
  infinite time stamp \<open>timestamp // 3600\<close> is NaN and \<open>int\<close> raises; on a finite one
  only \<open>timestamp * 1000\<close> can leave the finite range, and then \<open>% 1000\<close> is NaN.
\<close>

definition format_time :: "pyfloat \<Rightarrow> exn + string" where
  "format_time timestamp = (case timestamp of
      Finite t \<Rightarrow>
        (let hours = trunc (float_floor_div t 3600);
             minutes = trunc (float_floor_div (float_rem t 3600) 60);
             seconds = trunc (float_rem t 60)
         in case float_mul (Finite t) (Finite 1000) of
              Some (Finite p) \<Rightarrow>
                (let milliseconds = trunc (float_rem p 1000)
                 in Inr (fmt_0d 2 hours @ '':'' @ fmt_0d 2 minutes @ '':'' @ fmt_0d 2 seconds
                         @ ''.'' @ fmt_0d 3 milliseconds))
            | _ \<Rightarrow> Inl (ValueError ''cannot convert float NaN to integer''))
    | _ \<Rightarrow> Inl (ValueError ''cannot convert float NaN to integer''))"

section \<open>The insights document\<close>

text \<open>
  The document is the dictionary that \<open>json.load\<close> returns. It is modelled with the shape
  that the code reads: each category is a list of dictionaries, and so is each list of
  instances; a category or a list of instances that is absent is the empty list, as the
  default of \<open>.get(key, [])\<close> gives. The scalar fields can be absent or hold any scalar.
  A document of another shape (a category that is not a list, say) is outside the model.
\<close>

record appearance =
  startTime :: "jvalue option"
  endTime :: "jvalue option"
  a_confidence :: "jvalue option"

record label =
  l_name :: "jvalue option"
  appearances :: "appearance list"

record instance_rec =
  i_start :: "jvalue option"
  i_end :: "jvalue option"
  i_confidence :: "jvalue option"

record face =
  f_name :: "jvalue option"
  f_instances :: "instance_rec list"

record ocr_line =
  o_text :: "jvalue option"
  o_confidence :: "jvalue option"
  o_instances :: "instance_rec list"

record transcript_instance =
  adjustedStart :: "jvalue option"
  adjustedEnd :: "jvalue option"

record segment =
  t_instances :: "transcript_instance list"

record shot =
  s_start :: "jvalue option"
  s_end :: "jvalue option"
  s_tags :: "jvalue list"

record insights =
  labels :: "label list"
  faces :: "face list"
  ocr :: "ocr_line list"
  transcript :: "segment list"
  shots :: "shot list"

section \<open>Collecting the time stamps (extract_keyframes, lines 63 to 84)\<close>

text \<open>
  The three loops add to a Python set; \<open>sorted(list(timestamps))\<close> is the ascending list
  of its elements. A missing field is \<open>None\<close> here, which \<open>parse_time\<close> turns into 0.
\<close>

definition add_appearance :: "appearance \<Rightarrow> pyfloat set \<Rightarrow> pyfloat set" where
  "add_appearance inst timestamps =
     insert (parse_time (get (endTime inst) JNull))
       (insert (parse_time (get (startTime inst) JNull)) timestamps)"

definition add_transcript_instance :: "transcript_instance \<Rightarrow> pyfloat set \<Rightarrow> pyfloat set" where
  "add_transcript_instance inst timestamps =
     insert (parse_time (get (adjustedEnd inst) JNull))
       (insert (parse_time (get (adjustedStart inst) JNull)) timestamps)"

definition add_shot :: "shot \<Rightarrow> pyfloat set \<Rightarrow> pyfloat set" where
  "add_shot sh timestamps =
     insert (parse_time (get (s_end sh) JNull))
       (insert (parse_time (get (s_start sh) JNull)) timestamps)"

definition timestamp_set :: "insights \<Rightarrow> pyfloat set" where
  "timestamp_set video_insights =
     fold add_shot (shots video_insights)
       (fold (\<lambda>seg. fold add_transcript_instance (t_instances seg)) (transcript video_insights)
          (fold (\<lambda>lab. fold add_appearance (appearances lab)) (labels video_insights) {}))"

definition collect_timestamps :: "insights \<Rightarrow> pyfloat list" where
  "collect_timestamps video_insights = sorted_list_of_set (timestamp_set video_insights)"

section \<open>Correlating annotations (extract_keyframes, lines 127 to 161)\<close>

text \<open>
  An interval is tested with \<open>parse_time(start) <= timestamp and parse_time(end) >= timestamp\<close>;
  a missing field defaults to the text \<open>0:00:00\<close> here (which \<open>parse_time\<close> also turns
  into 0, having no millisecond part).
\<close>

definition dflt_time :: jvalue where
  "dflt_time = JText ''0:00:00''"

definition appearance_active :: "pyfloat \<Rightarrow> appearance \<Rightarrow> bool" where
  "appearance_active timestamp inst \<longleftrightarrow>
     parse_time (get (startTime inst) dflt_time) \<le> timestamp \<and>
     parse_time (get (endTime inst) dflt_time) \<ge> timestamp"

definition instance_active :: "pyfloat \<Rightarrow> instance_rec \<Rightarrow> bool" where
  "instance_active timestamp inst \<longleftrightarrow>
     parse_time (get (i_start inst) dflt_time) \<le> timestamp \<and>
     parse_time (get (i_end inst) dflt_time) \<ge> timestamp"

definition shot_active :: "pyfloat \<Rightarrow> shot \<Rightarrow> bool" where
  "shot_active timestamp sh \<longleftrightarrow>
     parse_time (get (s_start sh) dflt_time) \<le> timestamp \<and>
     parse_time (get (s_end sh) dflt_time) \<ge> timestamp"

record named_entry =
  name :: jvalue
  confidence :: jvalue

record ocr_entry =
  e_text :: jvalue
  e_confidence :: jvalue

definition active_labels :: "insights \<Rightarrow> pyfloat \<Rightarrow> named_entry list" where
  "active_labels video_insights timestamp =
     [\<lparr>name = get (l_name lab) JNull, confidence = get (a_confidence inst) (JNum 0)\<rparr>.
        lab \<leftarrow> labels video_insights, inst \<leftarrow> appearances lab,
        appearance_active timestamp inst]"

definition active_faces :: "insights \<Rightarrow> pyfloat \<Rightarrow> named_entry list" where
  "active_faces video_insights timestamp =
     [\<lparr>name = get (f_name fc) JNull, confidence = get (i_confidence inst) (JNum 0)\<rparr>.
        fc \<leftarrow> faces video_insights, inst \<leftarrow> f_instances fc,
        instance_active timestamp inst]"

definition active_ocr :: "insights \<Rightarrow> pyfloat \<Rightarrow> ocr_entry list" where
  "active_ocr video_insights timestamp =
     [\<lparr>e_text = get (o_text oc) JNull, e_confidence = get (o_confidence oc) (JNum 0)\<rparr>.
        oc \<leftarrow> ocr video_insights, inst \<leftarrow> o_instances oc,
        instance_active timestamp inst]"

definition active_shot_tags :: "insights \<Rightarrow> pyfloat \<Rightarrow> jvalue list" where
  "active_shot_tags video_insights timestamp =
     concat [s_tags sh. sh \<leftarrow> shots video_insights, shot_active timestamp sh]"

section \<open>Building the keyframes (extract_keyframes, lines 86 to 166)\<close>

text \<open>
  The opened \<open>cv2.VideoCapture\<close>: whether it opened, the frame rate it reports (taken to be
  a float that is not a NaN), and for each frame number whether
  \<open>cap.set(CAP_PROP_POS_FRAMES, n)\<close> followed by \<open>cap.read()\<close> returns a frame. The look-up
  of the video file and the writing of the thumbnails are not modelled; \<open>thumbnails_dir\<close>
  stands for the absolute path of the directory of the thumbnails.
\<close>

record capture =
  isOpened :: bool
  fps :: pyfloat
  read_ok :: "int \<Rightarrow> bool"

record keyframe =
  frame_index :: nat
  keyframe_path :: string
  start_time :: string
  end_time :: string
  shot_tags :: "jvalue list"
  kf_labels :: "named_entry list"
  kf_faces :: "named_entry list"
  ocr_text :: "ocr_entry list"

definition frame_number :: "pyfloat \<Rightarrow> pyfloat \<Rightarrow> exn + int" where
  \<comment> \<open>\<open>int(timestamp * fps)\<close>\<close>
  "frame_number timestamp rate = (case float_mul timestamp rate of
       None \<Rightarrow> Inl (ValueError ''cannot convert float NaN to integer'')
     | Some (Finite p) \<Rightarrow> Inr (trunc p)
     | Some _ \<Rightarrow> Inl OverflowError)"

definition keyframe_data :: "insights \<Rightarrow> string \<Rightarrow> nat \<Rightarrow> pyfloat \<Rightarrow> string \<Rightarrow> keyframe" where
  "keyframe_data video_insights thumbnails_dir idx timestamp time_str =
     \<lparr>frame_index = idx,
      keyframe_path = thumbnails_dir @ ''/frame_'' @ dec idx @ ''.jpg'',
      start_time = time_str,
      end_time = time_str,
      shot_tags = active_shot_tags video_insights timestamp,
      kf_labels = active_labels video_insights timestamp,
      kf_faces = active_faces video_insights timestamp,
      ocr_text = active_ocr video_insights timestamp\<rparr>"

fun build_loop ::
  "capture \<Rightarrow> insights \<Rightarrow> string \<Rightarrow> keyframe list \<Rightarrow> nat \<Rightarrow> pyfloat list \<Rightarrow> exn + keyframe list"
where
  "build_loop cap vi dir formatted_keyframes idx [] = Inr formatted_keyframes"
| "build_loop cap vi dir formatted_keyframes idx (timestamp # rest) =
     (case frame_number timestamp (fps cap) of
        Inl e \<Rightarrow> Inl e
      | Inr n \<Rightarrow>
          if read_ok cap n then
            (case format_time timestamp of
               Inl e \<Rightarrow> Inl e
             | Inr time_str \<Rightarrow>
                 build_loop cap vi dir
                   (formatted_keyframes @ [keyframe_data vi dir idx timestamp time_str])
                   (Suc idx) rest)
          else build_loop cap vi dir formatted_keyframes (Suc idx) rest)"

definition extract_keyframes :: "capture \<Rightarrow> insights \<Rightarrow> string \<Rightarrow> exn + keyframe list" where
  "extract_keyframes cap video_insights thumbnails_dir =
     (let timestamps = collect_timestamps video_insights
      in if \<not> isOpened cap then Inl (ValueError ''Could not open video file'')
         else build_loop cap video_insights thumbnails_dir [] 0 timestamps)"

section \<open>Scene-change detection (metadata_extraction.py)\<close>

text \<open>
  The video is the list of the frames that \<open>cap.read()\<close> returns before it first fails.
  \<open>cvtColor\<close> is a parameter: the grey image of a frame, as the list of its 8-bit pixels.
  \<open>cv2.absdiff\<close> raises on images of different sizes; \<open>np.mean\<close> accumulates in binary64,
  which is exact on integers up to \<open>2 ^ 53\<close> (so for every image below \<open>2 ^ 45\<close> pixels),
  and divides once; on an empty image it is NaN (\<open>None\<close>), which no comparison accepts.
\<close>

definition absdiff :: "8 word list \<Rightarrow> 8 word list \<Rightarrow> exn + 8 word list" where
  "absdiff a b = (if length a \<noteq> length b then Inl CvError
     else Inr (map (\<lambda>(x, y). if y \<le> x then x - y else y - x) (zip a b)))"

definition np_mean :: "8 word list \<Rightarrow> rat option" where
  "np_mean px = (if px = [] then None
     else Some (rnd (of_nat (sum_list (map unat px)) / of_nat (length px))))"

record scene_keyframe =
  sk_frame_index :: nat
  sk_keyframe_path :: string
  diff_mean :: rat

fun detect_loop ::
  "('f \<Rightarrow> 8 word list) \<Rightarrow> rat \<Rightarrow> scene_keyframe list \<Rightarrow> 8 word list option \<Rightarrow> nat \<Rightarrow> 'f list
     \<Rightarrow> exn + scene_keyframe list"
where
  "detect_loop cvtColor threshold keyframes prev_frame frame_idx [] = Inr keyframes"
| "detect_loop cvtColor threshold keyframes prev_frame frame_idx (frame # rest) =
     (let gray = cvtColor frame in
      case prev_frame of
        None \<Rightarrow> detect_loop cvtColor threshold keyframes (Some gray) (Suc frame_idx) rest
      | Some prev \<Rightarrow>
          (case absdiff gray prev of
             Inl e \<Rightarrow> Inl e
           | Inr diff \<Rightarrow>
               (case np_mean diff of
                  None \<Rightarrow> detect_loop cvtColor threshold keyframes (Some gray) (Suc frame_idx) rest
                | Some m \<Rightarrow>
                    if m > threshold then
                      detect_loop cvtColor threshold
                        (keyframes @ [\<lparr>sk_frame_index = frame_idx,
                            sk_keyframe_path = ''data/processed/keyframe_'' @ dec frame_idx @ ''.jpg'',
                            diff_mean = m\<rparr>])
                        (Some gray) (Suc frame_idx) rest
                    else detect_loop cvtColor threshold keyframes (Some gray) (Suc frame_idx) rest)))"

definition extract_keyframes_opencv ::
  "('f \<Rightarrow> 8 word list) \<Rightarrow> 'f list \<Rightarrow> rat \<Rightarrow> exn + scene_keyframe list" where
  "extract_keyframes_opencv cvtColor video threshold = detect_loop cvtColor threshold [] None 0 video"

section \<open>Notions of the specification\<close>

text \<open>
  A malformed time code, in the words of the specification: a value that is not a string
  (a missing field among them), a wrong number of parts when split at the colons or at
  the dot (the empty string has one part), or a part that \<open>int\<close> does not accept.
\<close>

definition malformed :: "jvalue \<Rightarrow> bool" where
  "malformed v \<longleftrightarrow> (case v of
      JText str \<Rightarrow>
        (case py_split CHR '':'' str of
           [h, m, s0] \<Rightarrow>
             (case py_split CHR ''.'' s0 of
                [s, ms] \<Rightarrow> isl (py_int h) \<or> isl (py_int m) \<or> isl (py_int s) \<or> isl (py_int ms)
              | _ \<Rightarrow> True)
         | _ \<Rightarrow> True)
    | _ \<Rightarrow> True)"

text \<open>
  The frame sampler of the specification: the time stamp has a frame number and the
  capture returns a frame there.
\<close>

definition sample_ok :: "capture \<Rightarrow> pyfloat \<Rightarrow> bool" where
  "sample_ok cap timestamp \<longleftrightarrow>
     (case frame_number timestamp (fps cap) of Inl e \<Rightarrow> False | Inr n \<Rightarrow> read_ok cap n)"

text \<open>
  The mean absolute per-pixel difference of two grey images of the same size, as the
  binary64 number that the division of the sum by the number of pixels gives, and the
  frame indices at which the specification has the detector emit a keyframe.
\<close>

definition mean_abs_diff :: "8 word list \<Rightarrow> 8 word list \<Rightarrow> rat" where
  "mean_abs_diff g p =
     rnd (of_int (sum_list (map (\<lambda>(x, y). \<bar>uint x - uint y\<bar>) (zip g p))) / of_nat (length g))"

definition scene_change :: "('f \<Rightarrow> 8 word list) \<Rightarrow> rat \<Rightarrow> 'f list \<Rightarrow> nat \<Rightarrow> bool" where
  "scene_change cvtColor threshold video i \<longleftrightarrow>
     1 \<le> i \<and> threshold < mean_abs_diff (cvtColor (video ! i)) (cvtColor (video ! (i - 1)))"

section \<open>Example inputs\<close>

text \<open>Two shots, from 0 s to 2 s and from 2 s to 5 s.\<close>

definition doc_shots :: insights where
  "doc_shots = \<lparr>labels = [], faces = [], ocr = [], transcript = [],
     shots = [\<lparr>s_start = Some (JText ''0:00:00.000''), s_end = Some (JText ''0:00:02.000''),
                s_tags = [JText ''intro'']\<rparr>,
              \<lparr>s_start = Some (JText ''0:00:02.000''), s_end = Some (JText ''0:00:05.000''),
                s_tags = [JText ''main'']\<rparr>]\<rparr>"


text \<open>
  One line of text with the confidence 0.9, seen from 1 s to 3 s in an instance that
  carries the confidence 0.5, and a shot that seeds the time stamps 1 s and 3 s.
\<close>

definition doc_ocr :: insights where
  "doc_ocr = \<lparr>labels = [], faces = [],
     ocr = [\<lparr>o_text = Some (JText ''EXIT''), o_confidence = Some (JNum (9 / 10)),
              o_instances = [\<lparr>i_start = Some (JText ''0:00:01.000''),
                               i_end = Some (JText ''0:00:03.000''),
                               i_confidence = Some (JNum (1 / 2))\<rparr>]\<rparr>],
     transcript = [],
     shots = [\<lparr>s_start = Some (JText ''0:00:01.000''), s_end = Some (JText ''0:00:03.000''),
                s_tags = []\<rparr>]\<rparr>"

text \<open>
  The time code of \<open>10 ^ 304\<close> hours, which \<open>parse_time\<close> turns into a finite float of
  about \<open>3.6e307\<close> seconds, and two shots, from 0 s to 5 s and from 5 s to that time.
\<close>

definition far_hours :: string where
  "far_hours = ''1'' @ replicate 304 (CHR ''0'')"

definition far_code :: string where
  "far_code = far_hours @ '':00:00.000''"

definition doc_far :: insights where
  "doc_far = \<lparr>labels = [], faces = [], ocr = [], transcript = [],
     shots = [\<lparr>s_start = Some (JText ''0:00:00.000''), s_end = Some (JText ''0:00:05.000''),
                s_tags = [JText ''intro'']\<rparr>,
              \<lparr>s_start = Some (JText ''0:00:05.000''), s_end = Some (JText far_code),
                s_tags = [JText ''main'']\<rparr>]\<rparr>"

text \<open>
  Captures: one of 200 frames at 25 frames per second, one that reports the frame rate 0,
  one that is not opened, and two of 100 frames at 25 frames per second (4 s of video).
\<close>

definition cap_25 :: capture where
  "cap_25 = \<lparr>isOpened = True, fps = Finite 25, read_ok = (\<lambda>n. 0 \<le> n \<and> n < 200)\<rparr>"

definition cap_fps0 :: capture where
  "cap_fps0 = \<lparr>isOpened = True, fps = Finite 0, read_ok = (\<lambda>n. 0 \<le> n \<and> n < 200)\<rparr>"

definition cap_closed :: capture where
  "cap_closed = \<lparr>isOpened = False, fps = Finite 25, read_ok = (\<lambda>n. False)\<rparr>"

definition cap_short :: capture where
  "cap_short = \<lparr>isOpened = True, fps = Finite 25, read_ok = (\<lambda>n. 0 \<le> n \<and> n < 100)\<rparr>"

definition cap_gap :: capture where
  "cap_gap = \<lparr>isOpened = True, fps = Finite 25, read_ok = (\<lambda>n. n \<noteq> 50)\<rparr>"

text \<open>Three identical grey frames of two pixels, then one that differs by 100 in each pixel.\<close>

definition video_cut :: "8 word list list" where
  "video_cut = [[10, 10], [10, 10], [10, 10], [110, 110]]"

section \<open>Evaluation\<close>

lemma dbl_bound_code [code]:
  "dbl_bound = 179769313486231590772930519078902473361797697894230657273430081157732675805500963132708477322407536021120113879871393357658789768814416622492847430639474124377767893424865485276302219601246094119453082952085005768838150682342462881473913110540827237163350510684586298239947245938479716304835356329624224137216"
  by (simp add: dbl_bound_def)

section \<open>Properties of the time-code parser\<close>


lemma round_half_even_nonneg: "0 \<le> y \<Longrightarrow> 0 \<le> round_half_even y"
  by (auto simp: round_half_even_def Let_def)

lemma pow2_pos: "0 < pow2 e"
  by (simp add: pow2_def)

lemma rnd_nonneg: "0 \<le> x \<Longrightarrow> 0 \<le> rnd x"
  by (simp add: rnd_def Let_def round_half_even_nonneg pow2_pos less_imp_le)

lemma to_float_nonneg: "0 \<le> r \<Longrightarrow> Finite 0 \<le> to_float r"
  by (auto simp: to_float_def overflows_def dbl_bound_def)

lemma set_concat_py_split: "set (concat (py_split c s)) \<subseteq> set s"
proof (induction s)
  case Nil
  show ?case by simp
next
  case (Cons a s)
  show ?case
  proof (cases "py_split c s")
    case Nil
    then show ?thesis by simp
  next
    case (Cons p ps)
    with Cons.IH have "set p \<subseteq> set s" "\<Union> (set ` set ps) \<subseteq> set s" by auto
    with Cons show ?thesis by auto
  qed
qed

lemma set_py_split: "p \<in> set (py_split c s) \<Longrightarrow> set p \<subseteq> set s"
  using set_concat_py_split[of c s] by auto

lemma py_digits_nonneg: "py_digits acc s = Some i \<Longrightarrow> 0 \<le> acc \<Longrightarrow> 0 \<le> i"
proof (induction acc s rule: py_digits.induct)
  case (1 acc)
  then show ?case by simp
next
  case (2 acc c cs)
  have dv: "is_digit d \<Longrightarrow> 0 \<le> digit_val d" for d
    by (simp add: is_digit_def digit_val_def)
  from 2 dv show ?case
    by (auto split: if_splits list.splits)
qed

lemma py_unsigned_nonneg: "py_unsigned s = Some i \<Longrightarrow> 0 \<le> i"
proof (cases s)
  case Nil
  then show "py_unsigned s = Some i \<Longrightarrow> 0 \<le> i" by (simp add: py_unsigned_def)
next
  case (Cons c cs)
  assume "py_unsigned s = Some i"
  with Cons have d: "is_digit c" and r: "py_digits (digit_val c) cs = Some i"
    by (auto simp: py_unsigned_def split: if_splits)
  from d have "0 \<le> digit_val c" by (simp add: is_digit_def digit_val_def)
  with r show "0 \<le> i" by (rule py_digits_nonneg)
qed

lemma set_strip: "set (strip s) \<subseteq> set s"
proof -
  have "set (strip s) = set (dropWhile is_space (rev (dropWhile is_space s)))"
    by (simp add: strip_def)
  also have "\<dots> \<subseteq> set (rev (dropWhile is_space s))"
    by (rule set_dropWhileD[THEN subsetI]) 
  also have "\<dots> \<subseteq> set s"
    using set_dropWhileD[of _ is_space s] by auto
  finally show ?thesis .
qed

lemma py_int_nonneg: "py_int s = Inr i \<Longrightarrow> CHR ''-'' \<notin> set s \<Longrightarrow> 0 \<le> i"
proof -
  assume a: "py_int s = Inr i" and m: "CHR ''-'' \<notin> set s"
  from m set_strip[of s] have "CHR ''-'' \<notin> set (strip s)" by auto
  with a show ?thesis
    by (auto simp: py_int_def split: list.splits if_splits option.splits dest: py_unsigned_nonneg)
qed


lemma int_truediv_nonneg: "int_truediv a b = Inr f \<Longrightarrow> 0 \<le> a \<Longrightarrow> 0 \<le> b \<Longrightarrow> 0 \<le> f"
  by (auto simp: int_truediv_def Let_def split: if_splits intro!: rnd_nonneg)

lemma int_add_float_nonneg: "int_add_float i f = Inr r \<Longrightarrow> 0 \<le> i \<Longrightarrow> 0 \<le> f \<Longrightarrow> Finite 0 \<le> r"
  by (auto simp: int_add_float_def int_to_float_def float_add_def Let_def split: if_splits sum.splits
      intro!: to_float_nonneg rnd_nonneg add_nonneg_nonneg)


lemma parse_time_1001: "parse_time (JText ''0:00:01.001'') = Finite (2254051613498933 / 2251799813685248)"
  by code_simp

text \<open>
  Claim C7. A malformed input (a value that is not a string, a wrong number of parts, a
  part that is not an integer literal, the empty string) makes \<open>parse_time\<close> return 0;
  the function is total, so no exception leaves it.
\<close>

theorem parse_time_malformed: "malformed v \<Longrightarrow> parse_time v = Finite 0"
  by (auto simp: malformed_def parse_time_def parse_time_try_def unpack3_def unpack2_def bind_def
      split: jvalue.splits list.splits sum.splits)

theorem parse_time_malformed_witness:
  "malformed (JText ''bad'') \<and> parse_time (JText ''bad'') = Finite 0 \<and>
   malformed (JText []) \<and> parse_time (JText []) = Finite 0 \<and>
   malformed JNull \<and> parse_time JNull = Finite 0 \<and>
   malformed (JText ''1:xx:03.450'') \<and> parse_time (JText ''1:xx:03.450'') = Finite 0"
proof -
  have m: "malformed (JText ''bad'')" "malformed (JText [])" "malformed JNull"
    "malformed (JText ''1:xx:03.450'')"
    by code_simp+
  show ?thesis
    using m parse_time_malformed [OF m(1)] parse_time_malformed [OF m(2)]
      parse_time_malformed [OF m(3)] parse_time_malformed [OF m(4)]
    by simp
qed

text \<open>
  Claim C9, as stated, fails: \<open>int\<close> accepts a sign, so a time code with a negative
  field parses to a negative number of seconds.
\<close>

theorem parse_time_negative_counterexample:
  "\<not> Finite 0 \<le> parse_time (JText ''-1:00:00.000'')"
  by code_simp

text \<open>
  Claim C9, amended: for every input string without a minus sign the value that
  \<open>parse_time\<close> returns is non-negative (an infinity included).
\<close>

theorem parse_time_nonneg_without_minus: "CHR ''-'' \<notin> set str \<Longrightarrow> Finite 0 \<le> parse_time (JText str)"
proof (cases "parse_time_try (JText str)")
  case (Inl e)
  then show ?thesis by (simp add: parse_time_def)
next
  case (Inr r)
  assume nm: "CHR ''-'' \<notin> set str"
  from Inr obtain h m s0 s ms hi mi si msi frac where
    sp: "py_split CHR '':'' str = [h, m, s0]" "py_split CHR ''.'' s0 = [s, ms]"
    and ints: "py_int h = Inr hi" "py_int m = Inr mi" "py_int s = Inr si" "py_int ms = Inr msi"
    and fr: "int_truediv msi 1000 = Inr frac"
    and res: "int_add_float (hi * 3600 + mi * 60 + si) frac = Inr r"
    by (auto simp: parse_time_try_def unpack3_def unpack2_def bind_def
        split: list.splits sum.splits)
  from sp(1) have "set h \<subseteq> set str" "set m \<subseteq> set str" "set s0 \<subseteq> set str"
    using set_py_split[of _ "CHR '':''" str] by auto
  moreover from sp(2) have "set s \<subseteq> set s0" "set ms \<subseteq> set s0"
    using set_py_split[of _ "CHR ''.''" s0] by auto
  ultimately have "CHR ''-'' \<notin> set h" "CHR ''-'' \<notin> set m" "CHR ''-'' \<notin> set s" "CHR ''-'' \<notin> set ms"
    using nm by auto
  with ints have nn: "0 \<le> hi" "0 \<le> mi" "0 \<le> si" "0 \<le> msi"
    by (auto dest: py_int_nonneg)
  then have "0 \<le> frac" using fr by (auto dest: int_truediv_nonneg)
  moreover have "0 \<le> hi * 3600 + mi * 60 + si" using nn by simp
  ultimately have "Finite 0 \<le> r" using res by (auto intro: int_add_float_nonneg)
  then show ?thesis using Inr by (simp add: parse_time_def)
qed

theorem parse_time_nonneg_without_minus_witness:
  "CHR ''-'' \<notin> set ''0:00:01.001'' \<and> Finite 0 \<le> parse_time (JText ''0:00:01.001'') \<and>
   parse_time (JText ''0:00:01.001'') \<noteq> Finite 0"
proof -
  have h: "CHR ''-'' \<notin> set ''0:00:01.001''" by simp
  show ?thesis
    using h parse_time_nonneg_without_minus [OF h] by (simp add: parse_time_1001)
qed

text \<open>
  Claim C2 fails on the code: the formatter truncates \<open>(timestamp * 1000) % 1000\<close>, and
  the binary64 product of the time stamp 1.001 with 1000 lies just below 1001. The time
  stamp parsed from \<open>0:00:01.001\<close> is formatted as \<open>00:00:01.000\<close>, which parses to 1.
\<close>

theorem format_parse_roundtrip_fails:
  "format_time (parse_time (JText ''0:00:01.001'')) = Inr ''00:00:01.000'' \<and>
   parse_time (JText ''00:00:01.000'') = Finite 1 \<and>
   parse_time (JText ''0:00:01.001'') \<noteq> Finite 1"
  unfolding parse_time_1001 by code_simp

section \<open>Properties of the collector and of the correlator\<close>

lemma fold_add_appearance:
  "fold add_appearance xs T =
     T \<union> (\<Union>a\<in>set xs. {parse_time (get (startTime a) JNull), parse_time (get (endTime a) JNull)})"
  by (induction xs arbitrary: T) (auto simp: add_appearance_def)

lemma fold_add_transcript_instance:
  "fold add_transcript_instance xs T =
     T \<union> (\<Union>i\<in>set xs. {parse_time (get (adjustedStart i) JNull), parse_time (get (adjustedEnd i) JNull)})"
  by (induction xs arbitrary: T) (auto simp: add_transcript_instance_def)

lemma fold_add_shot:
  "fold add_shot xs T =
     T \<union> (\<Union>sh\<in>set xs. {parse_time (get (s_start sh) JNull), parse_time (get (s_end sh) JNull)})"
  by (induction xs arbitrary: T) (auto simp: add_shot_def)

lemma fold_labels:
  "fold (\<lambda>lab. fold add_appearance (appearances lab)) ls T =
     T \<union> (\<Union>lab\<in>set ls. \<Union>a\<in>set (appearances lab).
            {parse_time (get (startTime a) JNull), parse_time (get (endTime a) JNull)})"
  by (induction ls arbitrary: T) (auto simp: fold_add_appearance)

lemma fold_transcript:
  "fold (\<lambda>seg. fold add_transcript_instance (t_instances seg)) ss T =
     T \<union> (\<Union>seg\<in>set ss. \<Union>i\<in>set (t_instances seg).
            {parse_time (get (adjustedStart i) JNull), parse_time (get (adjustedEnd i) JNull)})"
  by (induction ss arbitrary: T) (auto simp: fold_add_transcript_instance)

lemma timestamp_set_eq:
  "timestamp_set vi =
     (\<Union>lab\<in>set (labels vi). \<Union>a\<in>set (appearances lab).
        {parse_time (get (startTime a) JNull), parse_time (get (endTime a) JNull)}) \<union>
     (\<Union>seg\<in>set (transcript vi). \<Union>i\<in>set (t_instances seg).
        {parse_time (get (adjustedStart i) JNull), parse_time (get (adjustedEnd i) JNull)}) \<union>
     (\<Union>sh\<in>set (shots vi).
        {parse_time (get (s_start sh) JNull), parse_time (get (s_end sh) JNull)})"
  unfolding timestamp_set_def fold_add_shot fold_transcript fold_labels by simp

lemma finite_timestamp_set: "finite (timestamp_set vi)"
  unfolding timestamp_set_eq by simp

text \<open>
  Claim C3. The collected time stamps are in ascending order without duplicates, and they
  are exactly the parsed start and end of every label appearance (\<open>startTime\<close>,
  \<open>endTime\<close>), of every transcript instance (\<open>adjustedStart\<close>, \<open>adjustedEnd\<close>) and of
  every shot (\<open>start\<close>, \<open>end\<close>); faces and OCR lines add nothing. The two shots from 0 to
  2 and from 2 to 5 give the list 0, 2, 5.
\<close>

theorem collect_timestamps_sorted_distinct_exact:
  "sorted (collect_timestamps vi) \<and> distinct (collect_timestamps vi) \<and>
   set (collect_timestamps vi) =
     (\<Union>lab\<in>set (labels vi). \<Union>a\<in>set (appearances lab).
        {parse_time (get (startTime a) JNull), parse_time (get (endTime a) JNull)}) \<union>
     (\<Union>seg\<in>set (transcript vi). \<Union>i\<in>set (t_instances seg).
        {parse_time (get (adjustedStart i) JNull), parse_time (get (adjustedEnd i) JNull)}) \<union>
     (\<Union>sh\<in>set (shots vi).
        {parse_time (get (s_start sh) JNull), parse_time (get (s_end sh) JNull)})"
  using finite_timestamp_set [of vi] timestamp_set_eq [of vi]
  by (simp add: collect_timestamps_def)

theorem collect_timestamps_witness:
  "collect_timestamps doc_shots = [Finite 0, Finite 2, Finite 5] \<and>
   sorted (collect_timestamps doc_shots) \<and> distinct (collect_timestamps doc_shots)"
proof -
  have e: "collect_timestamps doc_shots = [Finite 0, Finite 2, Finite 5]"
    by code_simp
  show ?thesis
    using e collect_timestamps_sorted_distinct_exact [of doc_shots] by simp
qed

lemma concat_map_if_singleton:
  "concat (map (\<lambda>x. if P x then [f x] else []) xs) = map f (filter P xs)"
  by (induction xs) simp_all

lemma concat_map_if_const:
  "concat (map (\<lambda>x. if P x then [c] else []) xs) = replicate (length (filter P xs)) c"
  by (induction xs) simp_all

text \<open>
  Claim C4, amended: in every category an entity is returned once for each of its active
  intervals. A label or a face record carries the name of the entity and the confidence
  of that active interval (0 when absent). An OCR record carries the text of the line
  and the confidence field of the line itself (0 when absent), the same record for each
  active instance: the confidence of the instance is not read. An active shot
  contributes its tags.
\<close>

theorem active_entries_payload:
  "active_labels vi t =
     concat (map (\<lambda>lab. map (\<lambda>a. \<lparr>name = get (l_name lab) JNull,
                                   confidence = get (a_confidence a) (JNum 0)\<rparr>)
                           (filter (appearance_active t) (appearances lab))) (labels vi)) \<and>
   active_faces vi t =
     concat (map (\<lambda>fc. map (\<lambda>i. \<lparr>name = get (f_name fc) JNull,
                                  confidence = get (i_confidence i) (JNum 0)\<rparr>)
                          (filter (instance_active t) (f_instances fc))) (faces vi)) \<and>
   active_ocr vi t =
     concat (map (\<lambda>oc. replicate (length (filter (instance_active t) (o_instances oc)))
                          \<lparr>e_text = get (o_text oc) JNull,
                           e_confidence = get (o_confidence oc) (JNum 0)\<rparr>) (ocr vi)) \<and>
   active_shot_tags vi t = concat (map s_tags (filter (shot_active t) (shots vi)))"
  by (simp add: active_labels_def active_faces_def active_ocr_def active_shot_tags_def
      concat_map_if_singleton concat_map_if_const map_replicate_const)

text \<open>
  Claim C4, as stated, fails for OCR: the line has the confidence 0.9 and its only
  instance the confidence 0.5; the record returned at 2 s carries 0.9.
\<close>

theorem ocr_confidence_counterexample:
  "map e_confidence (active_ocr doc_ocr (Finite 2)) = [JNum (9 / 10)] \<and>
   map i_confidence (concat (map o_instances (ocr doc_ocr))) = [Some (JNum (1 / 2))]"
  by code_simp



section \<open>Properties of the keyframe builder\<close>

lemma sample_ok_iff: "sample_ok cap t \<longleftrightarrow> (\<exists>n. frame_number t (fps cap) = Inr n \<and> read_ok cap n)"
  by (auto simp: sample_ok_def split: sum.splits)

lemma build_loop_Inr:
  "build_loop cap vi dir acc idx ts = Inr kfs \<Longrightarrow>
   kfs = acc @ map (\<lambda>(i, t). keyframe_data vi dir i t (projr (format_time t)))
                  (filter (\<lambda>(i, t). sample_ok cap t) (enumerate idx ts)) \<and>
   (\<forall>t\<in>set ts. sample_ok cap t \<longrightarrow> (\<exists>s. format_time t = Inr s))"
proof (induction ts arbitrary: acc idx)
  case Nil
  then show ?case by simp
next
  case (Cons t ts)
  from Cons.prems obtain n where n: "frame_number t (fps cap) = Inr n"
    by (auto split: sum.splits)
  show ?case
  proof (cases "read_ok cap n")
    case True
    with n Cons.prems obtain s where s: "format_time t = Inr s"
      and r: "build_loop cap vi dir (acc @ [keyframe_data vi dir idx t s]) (Suc idx) ts = Inr kfs"
      by (auto split: sum.splits)
    from True n have ok: "sample_ok cap t" by (simp add: sample_ok_iff)
    from Cons.IH [OF r] ok s show ?thesis by simp
  next
    case False
    with n Cons.prems have r: "build_loop cap vi dir acc (Suc idx) ts = Inr kfs"
      by simp
    from False n have ok: "\<not> sample_ok cap t" by (simp add: sample_ok_iff)
    from Cons.IH [OF r] ok show ?thesis by simp
  qed
qed

lemma build_loop_returns:
  "\<forall>t\<in>set ts. \<exists>n. frame_number t (fps cap) = Inr n \<and> (read_ok cap n \<longrightarrow> (\<exists>s. format_time t = Inr s)) \<Longrightarrow>
   \<exists>kfs. build_loop cap vi dir acc idx ts = Inr kfs"
proof (induction ts arbitrary: acc idx)
  case Nil
  then show ?case by simp
next
  case (Cons t ts)
  from Cons.prems obtain n where n: "frame_number t (fps cap) = Inr n"
    and f: "read_ok cap n \<longrightarrow> (\<exists>s. format_time t = Inr s)" by auto
  from Cons.prems have rest: "\<forall>t\<in>set ts. \<exists>n. frame_number t (fps cap) = Inr n \<and> (read_ok cap n \<longrightarrow> (\<exists>s. format_time t = Inr s))"
    by simp
  show ?case
  proof (cases "read_ok cap n")
    case True
    with f obtain s where s: "format_time t = Inr s" by auto
    from Cons.IH [OF rest, of "acc @ [keyframe_data vi dir idx t s]" "Suc idx"] n True s
    show ?thesis by simp
  next
    case False
    from Cons.IH [OF rest, of acc "Suc idx"] n False show ?thesis by simp
  qed
qed

lemma build_loop_error:
  "build_loop cap vi dir acc idx ts = Inl e \<Longrightarrow> e \<noteq> ValueError ''Could not open video file''"
proof (induction ts arbitrary: acc idx)
  case Nil
  then show ?case by simp
next
  case (Cons t ts)
  show ?case
  proof (cases "frame_number t (fps cap)")
    case (Inl e')
    with Cons.prems have "e = e'" by simp
    with Inl show ?thesis
      by (auto simp: frame_number_def split: option.splits pyfloat.splits)
  next
    case (Inr n)
    show ?thesis
    proof (cases "read_ok cap n")
      case True
      show ?thesis
      proof (cases "format_time t")
        case (Inl e')
        with Cons.prems Inr True have "e = e'" by simp
        with Inl show ?thesis
          by (auto simp: format_time_def Let_def split: option.splits pyfloat.splits)
      next
        case (Inr s)
        with Cons.prems \<open>frame_number t (fps cap) = Inr n\<close> True Cons.IH show ?thesis by auto
      qed
    next
      case False
      with Cons.prems Inr Cons.IH show ?thesis by auto
    qed
  qed
qed

lemma enumerate_nth_map: "enumerate k ts = map (\<lambda>i. (i, ts ! (i - k))) [k..<k + length ts]"
  by (rule nth_equalityI) (auto simp: nth_enumerate_eq)

lemma map_fst_filter_enumerate:
  "map fst (filter (\<lambda>(i, t). P t) (enumerate 0 ts)) = filter (\<lambda>i. P (ts ! i)) [0..<length ts]"
  by (simp add: enumerate_nth_map filter_map comp_def)

lemma sorted_fst_filter_enumerate:
  "sorted_wrt (<) (map fst (filter Q (enumerate k ts)))"
proof -
  have "sorted_wrt (<) (map fst (enumerate k ts))"
    by (simp add: strict_sorted_iff)
  then have "sorted_wrt (\<lambda>a b. fst a < fst b) (enumerate k ts)"
    by (simp only: sorted_wrt_map)
  then have "sorted_wrt (\<lambda>a b. fst a < fst b) (filter Q (enumerate k ts))"
    by (rule sorted_wrt_filter)
  then show ?thesis by (simp only: sorted_wrt_map)
qed

lemma extract_keyframes_Inr:
  assumes "extract_keyframes cap vi dir = Inr kfs"
  shows "kfs = map (\<lambda>(i, t). keyframe_data vi dir i t (projr (format_time t)))
                  (filter (\<lambda>(i, t). sample_ok cap t) (enumerate 0 (collect_timestamps vi)))"
    and "\<forall>t\<in>set (collect_timestamps vi). sample_ok cap t \<longrightarrow> (\<exists>s. format_time t = Inr s)"
proof -
  from assms have "build_loop cap vi dir [] 0 (collect_timestamps vi) = Inr kfs"
    by (auto simp: extract_keyframes_def Let_def split: if_splits)
  from build_loop_Inr [OF this]
  show "kfs = map (\<lambda>(i, t). keyframe_data vi dir i t (projr (format_time t)))
                  (filter (\<lambda>(i, t). sample_ok cap t) (enumerate 0 (collect_timestamps vi)))"
    and "\<forall>t\<in>set (collect_timestamps vi). sample_ok cap t \<longrightarrow> (\<exists>s. format_time t = Inr s)"
    by simp_all
qed

lemma frame_index_keyframe_data [simp]: "frame_index (keyframe_data vi dir i t s) = i"
  by (simp add: keyframe_data_def)

lemma start_time_keyframe_data [simp]: "start_time (keyframe_data vi dir i t s) = s"
  by (simp add: keyframe_data_def)

lemma frame_number_fps_zero: "frame_number (Finite t) (Finite 0) = Inr 0"
  by (simp add: frame_number_def float_mul_def rnd_def to_float_def overflows_def dbl_bound_def trunc_def)

text \<open>
  Claim C5, amended: the build aborts with the error of the source exactly when the
  capture does not report itself opened. The frame rate is not checked: with the frame
  rate 0 every finite time stamp is sampled at frame number 0.
\<close>

theorem extract_keyframes_abort_iff_not_opened:
  "(extract_keyframes cap vi dir = Inl (ValueError ''Could not open video file'')) = (\<not> isOpened cap) \<and>
   frame_number (Finite t) (Finite 0) = Inr 0"
proof
  show "(extract_keyframes cap vi dir = Inl (ValueError ''Could not open video file'')) = (\<not> isOpened cap)"
    using build_loop_error [of cap vi dir "[]" 0 "collect_timestamps vi" "ValueError ''Could not open video file''"]
    by (auto simp: extract_keyframes_def Let_def)
  show "frame_number (Finite t) (Finite 0) = Inr 0"
    by (rule frame_number_fps_zero)
qed

lemma frame_number_finite:
  "float_mul t r = Some (Finite p) \<Longrightarrow> frame_number t r = Inr (trunc p)"
  by (simp add: frame_number_def)

lemma format_time_finite:
  "float_mul t (Finite 1000) = Some (Finite q) \<Longrightarrow> \<exists>s. format_time t = Inr s"
  by (cases t) (simp_all add: format_time_def Let_def float_mul_def split: if_splits)

text \<open>
  Claim C8, amended: when the capture is opened and, for every collected time stamp, the
  product of the time stamp with the frame rate is a finite number (and so is its product
  with 1000 when the capture returns a frame there), the build returns a result, and that
  result has a keyframe for the position \<open>i\<close> exactly when the capture returns a frame for
  time stamp \<open>i\<close>: a time stamp beyond the end of the stream is skipped and the later ones
  are processed.
\<close>

theorem undecodable_timestamps_skipped:
  assumes "isOpened cap"
    and "\<forall>t\<in>set (collect_timestamps vi).
           \<exists>p. float_mul t (fps cap) = Some (Finite p) \<and>
               (read_ok cap (trunc p) \<longrightarrow> (\<exists>q. float_mul t (Finite 1000) = Some (Finite q)))"
  shows "\<exists>kfs. extract_keyframes cap vi dir = Inr kfs \<and>
           map frame_index kfs =
             filter (\<lambda>i. sample_ok cap (collect_timestamps vi ! i)) [0..<length (collect_timestamps vi)]"
proof -
  have "\<forall>t\<in>set (collect_timestamps vi).
          \<exists>n. frame_number t (fps cap) = Inr n \<and> (read_ok cap n \<longrightarrow> (\<exists>s. format_time t = Inr s))"
  proof
    fix t assume "t \<in> set (collect_timestamps vi)"
    with assms(2) obtain p where p: "float_mul t (fps cap) = Some (Finite p)"
      and q: "read_ok cap (trunc p) \<longrightarrow> (\<exists>q. float_mul t (Finite 1000) = Some (Finite q))"
      by blast
    from q have "read_ok cap (trunc p) \<longrightarrow> (\<exists>s. format_time t = Inr s)"
      by (blast dest: format_time_finite)
    with frame_number_finite [OF p]
    show "\<exists>n. frame_number t (fps cap) = Inr n \<and> (read_ok cap n \<longrightarrow> (\<exists>s. format_time t = Inr s))"
      by blast
  qed
  from build_loop_returns [OF this, of vi dir "[]" 0] assms(1)
  obtain kfs where k: "extract_keyframes cap vi dir = Inr kfs"
    by (auto simp: extract_keyframes_def Let_def)
  from extract_keyframes_Inr(1) [OF k]
  have "map frame_index kfs =
          map fst (filter (\<lambda>(i, t). sample_ok cap t) (enumerate 0 (collect_timestamps vi)))"
    by (simp add: comp_def case_prod_unfold)
  with k show ?thesis by (simp add: map_fst_filter_enumerate)
qed

text \<open>
  Claim C10. The \<open>frame_index\<close> of a returned keyframe is the position of its time stamp
  in the sorted list of all collected time stamps: the keyframe is the one built from
  that time stamp, and the indices of the returned list increase strictly; a time stamp
  without a frame leaves a gap.
\<close>

theorem frame_index_is_position:
  assumes "extract_keyframes cap vi dir = Inr kfs"
  shows "sorted_wrt (<) (map frame_index kfs) \<and>
         (\<forall>kf\<in>set kfs. frame_index kf < length (collect_timestamps vi) \<and>
            format_time (collect_timestamps vi ! frame_index kf) = Inr (start_time kf) \<and>
            kf = keyframe_data vi dir (frame_index kf)
                   (collect_timestamps vi ! frame_index kf) (start_time kf))"
proof
  let ?ts = "collect_timestamps vi"
  let ?sel = "filter (\<lambda>(i, t). sample_ok cap t) (enumerate 0 ?ts)"
  note shape = extract_keyframes_Inr [OF assms]
  have "map frame_index kfs = map fst ?sel"
    unfolding shape(1) by (simp add: comp_def case_prod_unfold)
  then show "sorted_wrt (<) (map frame_index kfs)"
    by (simp add: sorted_fst_filter_enumerate)
  show "\<forall>kf\<in>set kfs. frame_index kf < length ?ts \<and>
            format_time (?ts ! frame_index kf) = Inr (start_time kf) \<and>
            kf = keyframe_data vi dir (frame_index kf) (?ts ! frame_index kf) (start_time kf)"
  proof
    fix kf assume "kf \<in> set kfs"
    then obtain i t where it: "(i, t) \<in> set ?sel"
      and kf: "kf = keyframe_data vi dir i t (projr (format_time t))"
      unfolding shape(1) by auto
    from it have e: "(i, t) \<in> set (enumerate 0 ?ts)" and ok: "sample_ok cap t" by auto
    from e have i: "i < length ?ts" and t: "t = ?ts ! i"
      by (auto simp: in_set_enumerate_eq)
    from t i have "t \<in> set ?ts" by simp
    with shape(2) ok have "\<exists>s. format_time t = Inr s" by blast
    then have f: "format_time t = Inr (projr (format_time t))" by auto
    from kf i t f show "frame_index kf < length ?ts \<and>
            format_time (?ts ! frame_index kf) = Inr (start_time kf) \<and>
            kf = keyframe_data vi dir (frame_index kf) (?ts ! frame_index kf) (start_time kf)"
      by simp
  qed
qed


lemma ts_doc_shots: "collect_timestamps doc_shots = [Finite 0, Finite 2, Finite 5]"
  by code_simp

lemma format_time_0: "format_time (Finite 0) = Inr ''00:00:00.000''"
  by code_simp

lemma format_time_2: "format_time (Finite 2) = Inr ''00:00:02.000''"
  by code_simp

lemma format_time_5: "format_time (Finite 5) = Inr ''00:00:05.000''"
  by code_simp

lemma frame_number_25:
  "frame_number (Finite 0) (Finite 25) = Inr 0"
  "frame_number (Finite 2) (Finite 25) = Inr 50"
  "frame_number (Finite 5) (Finite 25) = Inr 125"
  by code_simp+

text \<open>
  Claim C5, as stated, fails: a capture that reports the frame rate 0 is sampled, and the
  build returns one keyframe for each of the three time stamps.
\<close>

theorem fps_zero_counterexample:
  "map_sum id (map frame_index) (extract_keyframes cap_fps0 doc_shots ''thumbnails/v'') =
     Inr [0, 1, 2]"
  by (simp add: extract_keyframes_def ts_doc_shots cap_fps0_def frame_number_fps_zero
      format_time_0 format_time_2 format_time_5)

theorem extract_keyframes_abort_iff_not_opened_witness:
  "extract_keyframes cap_closed doc_shots ''thumbnails/v'' =
     Inl (ValueError ''Could not open video file'') \<and>
   extract_keyframes cap_fps0 doc_shots ''thumbnails/v'' \<noteq>
     Inl (ValueError ''Could not open video file'')"
  using extract_keyframes_abort_iff_not_opened [of cap_closed doc_shots "''thumbnails/v''" 0]
    extract_keyframes_abort_iff_not_opened [of cap_fps0 doc_shots "''thumbnails/v''" 0]
  by (simp add: cap_closed_def cap_fps0_def)

lemma float_mul_examples:
  "float_mul (Finite 0) (Finite 25) = Some (Finite 0)"
  "float_mul (Finite 2) (Finite 25) = Some (Finite 50)"
  "float_mul (Finite 5) (Finite 25) = Some (Finite 125)"
  "float_mul (Finite 0) (Finite 1000) = Some (Finite 0)"
  "float_mul (Finite 2) (Finite 1000) = Some (Finite 2000)"
  by code_simp+

theorem undecodable_timestamps_skipped_witness:
  "isOpened cap_short \<and> frame_number (Finite 5) (fps cap_short) = Inr 125 \<and>
   \<not> read_ok cap_short 125 \<and>
   map_sum id (map frame_index) (extract_keyframes cap_short doc_shots ''thumbnails/v'') =
     Inr [0, 1]"
proof -
  have o: "isOpened cap_short"
    by (simp add: cap_short_def)
  have h: "\<forall>t\<in>set (collect_timestamps doc_shots).
             \<exists>p. float_mul t (fps cap_short) = Some (Finite p) \<and>
                 (read_ok cap_short (trunc p) \<longrightarrow>
                    (\<exists>q. float_mul t (Finite 1000) = Some (Finite q)))"
    by (simp add: ts_doc_shots cap_short_def float_mul_examples trunc_def)
  have s: "sample_ok cap_short (Finite 0)" "sample_ok cap_short (Finite 2)"
    "\<not> sample_ok cap_short (Finite 5)"
    by (simp_all add: sample_ok_def cap_short_def frame_number_25)
  have u: "[0..<3] = [0, 1, 2::nat]"
    by (simp add: upt_rec)
  from undecodable_timestamps_skipped [OF o h, of "''thumbnails/v''"]
  obtain kfs where "extract_keyframes cap_short doc_shots ''thumbnails/v'' = Inr kfs"
    and "map frame_index kfs = [0, 1]"
    by (auto simp: ts_doc_shots s u)
  then show ?thesis
    by (simp add: cap_short_def frame_number_25)
qed

theorem frame_index_is_position_witness:
  "extract_keyframes cap_gap doc_shots ''thumbnails/v'' =
     Inr [\<lparr>frame_index = 0, keyframe_path = ''thumbnails/v/frame_0.jpg'',
            start_time = ''00:00:00.000'', end_time = ''00:00:00.000'',
            shot_tags = [JText ''intro''], kf_labels = [], kf_faces = [], ocr_text = []\<rparr>,
          \<lparr>frame_index = 2, keyframe_path = ''thumbnails/v/frame_2.jpg'',
            start_time = ''00:00:05.000'', end_time = ''00:00:05.000'',
            shot_tags = [JText ''main''], kf_labels = [], kf_faces = [], ocr_text = []\<rparr>] \<and>
   collect_timestamps doc_shots ! 0 = Finite 0 \<and> collect_timestamps doc_shots ! 2 = Finite 5 \<and>
   format_time (collect_timestamps doc_shots ! 2) = Inr ''00:00:05.000''"
proof -
  let ?kf0 = "\<lparr>frame_index = 0, keyframe_path = ''thumbnails/v/frame_0.jpg'',
            start_time = ''00:00:00.000'', end_time = ''00:00:00.000'',
            shot_tags = [JText ''intro''], kf_labels = [], kf_faces = [], ocr_text = []\<rparr>"
  let ?kf2 = "\<lparr>frame_index = 2, keyframe_path = ''thumbnails/v/frame_2.jpg'',
            start_time = ''00:00:05.000'', end_time = ''00:00:05.000'',
            shot_tags = [JText ''main''], kf_labels = [], kf_faces = [], ocr_text = []\<rparr>"
  have e: "extract_keyframes cap_gap doc_shots ''thumbnails/v'' = Inr [?kf0, ?kf2]"
    by code_simp
  from frame_index_is_position [OF e]
  have "format_time (collect_timestamps doc_shots ! 2) = Inr ''00:00:05.000''"
    by simp
  with e show ?thesis
    by (simp add: ts_doc_shots)
qed

text \<open>
  Rounding of a large integer: when \<open>x\<close> has \<open>k + 54\<close> bits, the quantum is \<open>2 ^ (k + 1)\<close>,
  and \<open>rnd x\<close> is the multiple \<open>n\<close> of the quantum that lies less than half a quantum from
  \<open>x\<close>.
\<close>

lemma bitlen_eqI:
  assumes "2 ^ m \<le> x" and "x < 2 ^ Suc m"
  shows "bitlen x = int (Suc m)"
proof (rule antisym)
  show "bitlen x \<le> int (Suc m)"
    using assms(2) bitlen_le_iff_power [of x "int (Suc m)"] by (simp del: of_nat_Suc)
  show "int (Suc m) \<le> bitlen x"
    using assms(1) bitlen_ge_iff_power [of "int (Suc m)" x] by (simp del: of_nat_Suc)
qed

lemma ilog2_int:
  assumes "2 ^ m \<le> x" and "x < 2 ^ Suc m"
  shows "ilog2 (of_int x) = int m"
proof -
  from assms have b: "bitlen x = int (Suc m)"
    by (rule bitlen_eqI)
  have "(0::int) < 2 ^ m"
    by simp
  with assms(1) have pos: "0 < x"
    by linarith
  then have q: "quotient_of \<bar>of_int x\<bar> = (x, 1)"
    by (simp add: quotient_of_int flip: of_int_abs)
  have c: "bitlen 1 = 1"
    by (simp add: bitlen_alt_def)
  from assms(1) have "(of_int (2 ^ m) :: rat) \<le> of_int x"
    by (simp only: of_int_le_iff)
  with pos have "pow2 (int m) \<le> \<bar>of_int x :: rat\<bar>"
    by (simp add: pow2_def)
  then show ?thesis
    by (simp add: ilog2_def q b c Let_def)
qed

lemma round_half_even_eqI:
  assumes "of_int n - 1 / 2 < y" and "y < of_int n + 1 / 2"
  shows "round_half_even y = n"
proof (cases "of_int n \<le> y")
  case True
  with assms(2) have "\<lfloor>y\<rfloor> = n"
    by (intro floor_unique) linarith+
  with assms(2) show ?thesis
    by (simp add: round_half_even_def Let_def)
next
  case False
  have "of_int (n - 1) \<le> y"
    using assms(1) by simp
  moreover have "y < of_int (n - 1) + 1"
    using False by simp
  ultimately have "\<lfloor>y\<rfloor> = n - 1"
    by (rule floor_unique)
  with assms(1) False show ?thesis
    by (simp add: round_half_even_def Let_def)
qed

lemma rnd_int:
  fixes x n :: int
  assumes "2 ^ (k + 53) \<le> x" and "x < 2 ^ (k + 54)"
    and "(2 * n - 1) * 2 ^ k < x" and "x < (2 * n + 1) * 2 ^ k"
  shows "rnd (of_int x) = of_int n * 2 ^ Suc k"
proof -
  have il: "ilog2 (of_int x) = int (k + 53)"
  proof (rule ilog2_int)
    show "2 ^ (k + 53) \<le> x"
      by (rule assms(1))
    have "Suc (k + 53) = k + 54"
      by simp
    with assms(2) show "x < 2 ^ Suc (k + 53)"
      by (simp only:)
  qed
  have "(0::int) < 2 ^ (k + 53)"
    by simp
  with assms(1) have pos: "0 < x"
    by linarith
  have m: "max (int (k + 53)) (- 1022) - 52 = int (Suc k)"
    by simp
  have q: "pow2 (int (Suc k)) = 2 ^ Suc k"
    by (simp add: pow2_def del: of_nat_Suc)
  have r: "round_half_even (of_int x / 2 ^ Suc k) = n"
  proof (rule round_half_even_eqI)
    from assms(3) have "(of_int ((2 * n - 1) * 2 ^ k) :: rat) < of_int x"
      by (simp only: of_int_less_iff)
    then have "(2 * of_int n - 1) * 2 ^ k < (of_int x :: rat)"
      by simp
    then show "of_int n - 1 / 2 < (of_int x :: rat) / 2 ^ Suc k"
      by (simp add: field_simps)
    from assms(4) have "(of_int x :: rat) < of_int ((2 * n + 1) * 2 ^ k)"
      by (simp only: of_int_less_iff)
    then have "(of_int x :: rat) < (2 * of_int n + 1) * 2 ^ k"
      by simp
    then show "(of_int x :: rat) / 2 ^ Suc k < of_int n + 1 / 2"
      by (simp add: field_simps)
  qed
  from pos have nz: "(of_int x :: rat) \<noteq> 0"
    by simp
  show ?thesis
    unfolding rnd_def Let_def il m q r using nz by simp
qed

lemma rnd_far: "rnd 36000000000000000000000000000000000000000000000000000000000000000000000000000000000000000000000000000000000000000000000000000000000000000000000000000000000000000000000000000000000000000000000000000000000000000000000000000000000000000000000000000000000000000000000000000000000000000000000000000000000000000000 = 35999999999999999996078228752912432695302688876464551467761593758045222445258688465936420058465274846670456782572481887751683133309031383003702925632613844423423439564089605722849961701634745952094274118946802987703011796527875465279950739459040607146431175572233557936480867666403626049799259811486078337024"
  using rnd_int [of 968 "36000000000000000000000000000000000000000000000000000000000000000000000000000000000000000000000000000000000000000000000000000000000000000000000000000000000000000000000000000000000000000000000000000000000000000000000000000000000000000000000000000000000000000000000000000000000000000000000000000000000000000000" 7215006096032302] by simp

lemma rnd_far_float: "rnd 35999999999999999996078228752912432695302688876464551467761593758045222445258688465936420058465274846670456782572481887751683133309031383003702925632613844423423439564089605722849961701634745952094274118946802987703011796527875465279950739459040607146431175572233557936480867666403626049799259811486078337024 = 35999999999999999996078228752912432695302688876464551467761593758045222445258688465936420058465274846670456782572481887751683133309031383003702925632613844423423439564089605722849961701634745952094274118946802987703011796527875465279950739459040607146431175572233557936480867666403626049799259811486078337024"
  using rnd_int [of 968 "35999999999999999996078228752912432695302688876464551467761593758045222445258688465936420058465274846670456782572481887751683133309031383003702925632613844423423439564089605722849961701634745952094274118946802987703011796527875465279950739459040607146431175572233557936480867666403626049799259811486078337024" 7215006096032302] by simp

lemma rnd_far_frames: "rnd (35999999999999999996078228752912432695302688876464551467761593758045222445258688465936420058465274846670456782572481887751683133309031383003702925632613844423423439564089605722849961701634745952094274118946802987703011796527875465279950739459040607146431175572233557936480867666403626049799259811486078337024 * 25) = 900000000000000009881157266496409875664430787095806617031296146128418268644203423834469960806452200091551247027490552640504312553688260794954763082783314414281444980526397244671277407296297031390045460195485010605842078635916506598652820762080367123105055731546059735947626226038870859456773971438872008065024"
  using rnd_int [of 973 "35999999999999999996078228752912432695302688876464551467761593758045222445258688465936420058465274846670456782572481887751683133309031383003702925632613844423423439564089605722849961701634745952094274118946802987703011796527875465279950739459040607146431175572233557936480867666403626049799259811486078337024 * 25" 5636723512525236] by simp


lemma far_split:
  "py_split CHR '':'' far_code = [far_hours, ''00'', ''00.000'']"
  by code_simp

lemma far_hours_int: "py_int far_hours = Inr 10000000000000000000000000000000000000000000000000000000000000000000000000000000000000000000000000000000000000000000000000000000000000000000000000000000000000000000000000000000000000000000000000000000000000000000000000000000000000000000000000000000000000000000000000000000000000000000000000000000000000000"
  by code_simp

lemma small_fields:
  "py_split CHR ''.'' ''00.000'' = [''00'', ''000'']"
  "py_int ''00'' = Inr 0"
  "py_int ''000'' = Inr 0"
  "int_truediv 0 1000 = Inr 0"
  by code_simp+

lemma parse_time_far: "parse_time (JText far_code) = Finite 35999999999999999996078228752912432695302688876464551467761593758045222445258688465936420058465274846670456782572481887751683133309031383003702925632613844423423439564089605722849961701634745952094274118946802987703011796527875465279950739459040607146431175572233557936480867666403626049799259811486078337024"
  using rnd_far rnd_far_float
  by (simp add: parse_time_def parse_time_try_def bind_def unpack3_def unpack2_def far_split
      far_hours_int small_fields int_add_float_def int_to_float_def float_add_def to_float_def
      overflows_def dbl_bound_def Let_def)

lemma frame_number_far: "frame_number (Finite 35999999999999999996078228752912432695302688876464551467761593758045222445258688465936420058465274846670456782572481887751683133309031383003702925632613844423423439564089605722849961701634745952094274118946802987703011796527875465279950739459040607146431175572233557936480867666403626049799259811486078337024) (Finite 25) = Inl OverflowError"
  using rnd_far_frames
  by (simp add: frame_number_def float_mul_def to_float_def overflows_def dbl_bound_def)

lemma parse_time_0_5:
  "parse_time (JText ''0:00:00.000'') = Finite 0"
  "parse_time (JText ''0:00:05.000'') = Finite 5"
  by code_simp+

lemma ts_doc_far: "collect_timestamps doc_far = [Finite 0, Finite 5, Finite 35999999999999999996078228752912432695302688876464551467761593758045222445258688465936420058465274846670456782572481887751683133309031383003702925632613844423423439564089605722849961701634745952094274118946802987703011796527875465279950739459040607146431175572233557936480867666403626049799259811486078337024]"
proof -
  have "timestamp_set doc_far = {Finite 0, Finite 5, Finite 35999999999999999996078228752912432695302688876464551467761593758045222445258688465936420058465274846670456782572481887751683133309031383003702925632613844423423439564089605722849961701634745952094274118946802987703011796527875465279950739459040607146431175572233557936480867666403626049799259811486078337024}"
    unfolding timestamp_set_eq by (auto simp: doc_far_def get_def parse_time_0_5 parse_time_far)
  then have s: "set (collect_timestamps doc_far) = set [Finite 0, Finite 5, Finite 35999999999999999996078228752912432695302688876464551467761593758045222445258688465936420058465274846670456782572481887751683133309031383003702925632613844423423439564089605722849961701634745952094274118946802987703011796527875465279950739459040607146431175572233557936480867666403626049799259811486078337024]"
    by (simp add: collect_timestamps_def finite_timestamp_set)
  have "sorted (collect_timestamps doc_far)" and "distinct (collect_timestamps doc_far)"
    by (simp_all add: collect_timestamps_def)
  moreover have "sorted [Finite 0, Finite 5, Finite 35999999999999999996078228752912432695302688876464551467761593758045222445258688465936420058465274846670456782572481887751683133309031383003702925632613844423423439564089605722849961701634745952094274118946802987703011796527875465279950739459040607146431175572233557936480867666403626049799259811486078337024]"
    and "distinct [Finite 0, Finite 5, Finite 35999999999999999996078228752912432695302688876464551467761593758045222445258688465936420058465274846670456782572481887751683133309031383003702925632613844423423439564089605722849961701634745952094274118946802987703011796527875465279950739459040607146431175572233557936480867666403626049799259811486078337024]"
    by simp_all
  ultimately show ?thesis
    using s by (intro sorted_distinct_set_unique)
qed

text \<open>
  Claim C8, as stated, fails: \<open>int(timestamp * fps)\<close> stands outside every \<open>try\<close>. With
  shots from 0 s to 5 s and from 5 s to \<open>10 ^ 304\<close> hours, on a capture of 100 frames at
  25 frames per second, the time stamp 5 s has the frame number 125, beyond the end of
  the stream, and the product of the last time stamp with the frame rate is infinite: the
  build raises \<open>OverflowError\<close> and returns nothing.
\<close>

theorem timestamp_overflow_counterexample:
  "frame_number (Finite 5) (fps cap_short) = Inr 125 \<and> \<not> read_ok cap_short 125 \<and>
   Finite 5 \<in> set (collect_timestamps doc_far) \<and>
   extract_keyframes cap_short doc_far ''thumbnails/v'' = Inl OverflowError"
  by (simp add: extract_keyframes_def ts_doc_far cap_short_def frame_number_25 format_time_0
      frame_number_far)

section \<open>Properties of the scene-change detector\<close>

lemma unat_absdiff: "int (unat (if y \<le> x then x - y else y - x)) = \<bar>uint x - uint y\<bar>"
  for x y :: "8 word"
proof (cases "y \<le> x")
  case True
  then have "uint y \<le> uint x" by (simp add: word_le_def)
  with True show ?thesis by (simp add: uint_sub_if' word_le_def)
next
  case False
  then have "uint x \<le> uint y" by (simp add: word_le_def)
  with False show ?thesis by (simp add: uint_sub_if' word_le_def)
qed

lemma sum_list_absdiff:
  "int (sum_list (map unat (map (\<lambda>(x, y). if y \<le> x then x - y else y - x) zs))) =
   sum_list (map (\<lambda>(x, y). \<bar>uint x - uint y\<bar>) zs)"
  for zs :: "(8 word \<times> 8 word) list"
proof (induction zs)
  case Nil
  show ?case by simp
next
  case (Cons z zs)
  obtain x y where z: "z = (x, y)" by (cases z)
  from Cons.IH unat_absdiff [of y x] show ?case
    unfolding z by (simp del: of_nat_unat)
qed

lemma np_mean_absdiff:
  assumes "length g = length p" and "g \<noteq> []"
  shows "\<exists>d. absdiff g p = Inr d \<and> np_mean d = Some (mean_abs_diff g p)"
proof -
  let ?d = "map (\<lambda>(x, y). if y \<le> x then x - y else y - x) (zip g p)"
  from assms have a: "absdiff g p = Inr ?d" by (simp add: absdiff_def)
  from assms have ne: "?d \<noteq> []" by (cases g; cases p) simp_all
  from assms have len: "length ?d = length g" by simp
  have "(of_nat (sum_list (map unat ?d)) :: rat) = of_int (int (sum_list (map unat ?d)))"
    by simp
  also have "\<dots> = of_int (sum_list (map (\<lambda>(x, y). \<bar>uint x - uint y\<bar>) (zip g p)))"
    by (simp only: sum_list_absdiff)
  finally have "np_mean ?d = Some (mean_abs_diff g p)"
    using ne len by (simp only: np_mean_def mean_abs_diff_def if_False)
  with a show ?thesis by blast
qed

lemma detect_loop_Some:
  "\<forall>f\<in>set rest. length (cvt f) = length p \<Longrightarrow> p \<noteq> [] \<Longrightarrow>
   detect_loop cvt th acc (Some p) idx rest =
     Inr (acc @ map (\<lambda>(i, g, q). \<lparr>sk_frame_index = i,
                       sk_keyframe_path = ''data/processed/keyframe_'' @ dec i @ ''.jpg'',
                       diff_mean = mean_abs_diff g q\<rparr>)
                (filter (\<lambda>(i, g, q). th < mean_abs_diff g q)
                   (enumerate idx (zip (map cvt rest) (p # map cvt rest)))))"
proof (induction rest arbitrary: acc p idx)
  case Nil
  show ?case by simp
next
  case (Cons f rest)
  let ?g = "cvt f"
  from Cons.prems have lg: "length ?g = length p" and gne: "?g \<noteq> []"
    and r: "\<forall>f\<in>set rest. length (cvt f) = length ?g"
    by auto
  from np_mean_absdiff [OF lg gne] obtain d where d: "absdiff ?g p = Inr d"
    and m: "np_mean d = Some (mean_abs_diff ?g p)" by blast
  note IH = Cons.IH [OF r gne]
  show ?case
    by (simp add: d m IH Let_def)
qed

lemma extract_keyframes_opencv_Cons:
  assumes "\<forall>f\<in>set (f0 # rest). length (cvt f) = n" and "0 < n"
  shows "extract_keyframes_opencv cvt (f0 # rest) th =
     Inr (map (\<lambda>(i, g, q). \<lparr>sk_frame_index = i,
                       sk_keyframe_path = ''data/processed/keyframe_'' @ dec i @ ''.jpg'',
                       diff_mean = mean_abs_diff g q\<rparr>)
                (filter (\<lambda>(i, g, q). th < mean_abs_diff g q)
                   (enumerate 1 (zip (map cvt rest) (map cvt (f0 # rest))))))"
proof -
  from assms have r: "\<forall>f\<in>set rest. length (cvt f) = length (cvt f0)" and ne: "cvt f0 \<noteq> []"
    by auto
  show ?thesis
    by (simp add: extract_keyframes_opencv_def Let_def detect_loop_Some [OF r ne])
qed

lemma enumerate_pairs:
  "enumerate 1 (zip (map cvt rest) (map cvt (f0 # rest))) =
   map (\<lambda>i. (i, cvt ((f0 # rest) ! i), cvt ((f0 # rest) ! (i - 1)))) [1..<Suc (length rest)]"
  by (rule nth_equalityI) (auto simp: nth_enumerate_eq nth_Cons' simp del: upt_Suc)

text \<open>
  Claim C6. The frames that one capture decodes all have the size of its stream, of at
  least one pixel. On such frames the detector returns a list, with a keyframe
  for frame \<open>i\<close> if and only if \<open>i \<ge> 1\<close> and the mean absolute difference between the
  grey image of frame \<open>i\<close> and that of frame \<open>i - 1\<close> (the frame read just before,
  whether or not it was emitted) exceeds the threshold; frame 0 is never returned, the
  indices increase strictly, and each keyframe carries that mean as its score.
\<close>

theorem detector_emits_at_scene_changes:
  assumes "\<forall>f\<in>set video. length (cvtColor f) = n" and "0 < n"
  shows "\<exists>kfs. extract_keyframes_opencv cvtColor video threshold = Inr kfs \<and>
           map sk_frame_index kfs = filter (scene_change cvtColor threshold video) [0..<length video] \<and>
           0 \<notin> set (map sk_frame_index kfs) \<and>
           sorted_wrt (<) (map sk_frame_index kfs) \<and>
           (\<forall>kf\<in>set kfs. diff_mean kf =
              mean_abs_diff (cvtColor (video ! sk_frame_index kf))
                (cvtColor (video ! (sk_frame_index kf - 1))))"
proof (cases video)
  case Nil
  then show ?thesis by (simp add: extract_keyframes_opencv_def)
next
  case (Cons f0 rest)
  let ?mk = "\<lambda>(i, g, q). \<lparr>sk_frame_index = i,
                       sk_keyframe_path = ''data/processed/keyframe_'' @ dec i @ ''.jpg'',
                       diff_mean = mean_abs_diff g q\<rparr>"
  let ?Q = "\<lambda>(i, g, q). threshold < mean_abs_diff g q"
  let ?tr = "\<lambda>i. (i, cvtColor (video ! i), cvtColor (video ! (i - 1)))"
  let ?sel = "filter (\<lambda>i. threshold < mean_abs_diff (cvtColor (video ! i)) (cvtColor (video ! (i - 1))))
                [1..<Suc (length rest)]"
  let ?kfs = "map ?mk (map ?tr ?sel)"
  from assms have "extract_keyframes_opencv cvtColor video threshold =
      Inr (map ?mk (filter ?Q (enumerate 1 (zip (map cvtColor rest) (map cvtColor (f0 # rest))))))"
    unfolding Cons by (rule extract_keyframes_opencv_Cons)
  then have e: "extract_keyframes_opencv cvtColor video threshold = Inr ?kfs"
    unfolding enumerate_pairs Cons by (simp add: filter_map comp_def del: upt_Suc)
  have idx: "map sk_frame_index ?kfs = ?sel"
    by (simp add: comp_def del: upt_Suc)
  have up: "[0..<length video] = 0 # [1..<Suc (length rest)]"
    unfolding Cons by (subst upt_conv_Cons) simp_all
  have "filter (scene_change cvtColor threshold video) [1..<Suc (length rest)] = ?sel"
    by (rule filter_cong) (auto simp: scene_change_def)
  moreover have "\<not> scene_change cvtColor threshold video 0"
    by (simp add: scene_change_def)
  ultimately have sel: "?sel = filter (scene_change cvtColor threshold video) [0..<length video]"
    unfolding up by simp
  have z: "0 \<notin> set ?sel"
    by (simp del: upt_Suc)
  have s: "sorted_wrt (<) ?sel"
    by (rule sorted_wrt_filter) (simp add: strict_sorted_iff del: upt_Suc)
  have dm: "\<forall>kf\<in>set ?kfs. diff_mean kf =
              mean_abs_diff (cvtColor (video ! sk_frame_index kf))
                (cvtColor (video ! (sk_frame_index kf - 1)))"
    by auto
  show ?thesis
  proof (intro exI conjI)
    show "extract_keyframes_opencv cvtColor video threshold = Inr ?kfs"
      by (rule e)
    show "map sk_frame_index ?kfs =
            filter (scene_change cvtColor threshold video) [0..<length video]"
      using idx sel by (rule trans)
    show "0 \<notin> set (map sk_frame_index ?kfs)"
      unfolding idx by (rule z)
    show "sorted_wrt (<) (map sk_frame_index ?kfs)"
      unfolding idx by (rule s)
    show "\<forall>kf\<in>set ?kfs. diff_mean kf =
              mean_abs_diff (cvtColor (video ! sk_frame_index kf))
                (cvtColor (video ! (sk_frame_index kf - 1)))"
      by (rule dm)
  qed
qed

lemma scene_changes_video_cut:
  "filter (scene_change id 40 video_cut) [0..<length video_cut] = [3]"
  by code_simp

theorem detector_emits_at_scene_changes_witness:
  "map length video_cut = [2, 2, 2, 2] \<and>
   map_sum id (map sk_frame_index) (extract_keyframes_opencv id video_cut 40) = Inr [3]"
proof -
  have l: "map length video_cut = [2, 2, 2, 2]"
    by (simp add: video_cut_def)
  have h: "\<forall>f\<in>set video_cut. length (id f) = 2"
    by (simp add: video_cut_def)
  have n: "0 < (2::nat)"
    by simp
  from detector_emits_at_scene_changes [OF h n, of 40]
  obtain kfs where a: "extract_keyframes_opencv id video_cut 40 = Inr kfs"
    and b: "map sk_frame_index kfs = filter (scene_change id 40 video_cut) [0..<length video_cut]"
    by blast
  have "map_sum id (map sk_frame_index) (extract_keyframes_opencv id video_cut 40) = Inr [3]"
    unfolding a by (simp only: map_sum.simps b scene_changes_video_cut)
  with l show ?thesis
    by (rule conjI)
qed

end
